theory Spec2Isabelle
  imports Complex_Main "HOL-Library.Word"
begin

text \<open>
  The reflow of extracted PDF text into typed blocks and their publication, as the
  repository has it in its successive versions:
  \<^item> \<open>textToNotionBlocks\<close>, the paragraph classifier of the React client
    (\<open>App.tsx\<close> in its last version, lines 27 to 53);
  \<^item> \<open>parsePDF\<close> with line grouping, repeated header and footer detection and heading
    detection (\<open>server.js\<close>, lines 348 to 439);
  \<^item> the block mapping of the \<open>/api/notion/create\<close> handlers (\<open>server.js\<close>, lines 137 to
    209 and 471 to 530, and the last server version, lines 126 to 218);
  \<^item> the salvage of the generated text in the \<open>/api/ai/structure\<close> handler of the last
    server version, lines 278 to 311.
  Definitions come first and follow the source; the facts come after them.
\<close>

section \<open>JavaScript strings\<close>

text \<open>
  A JavaScript string is a sequence of UTF-16 code units; \<open>s.length\<close> counts code units.
  The bullet \<open>U+2022\<close> is one code unit, so it cannot be an 8-bit \<^typ>\<open>char\<close>:
  strings are lists of 16-bit words, and \<open>js\<close> embeds an ASCII literal.
\<close>

type_synonym jchar = "16 word"
type_synonym jstring = "jchar list"

definition js :: "string \<Rightarrow> jstring" where
  "js s = map of_char s"

abbreviation NL :: jchar where "NL \<equiv> 0x0A"
abbreviation SP :: jchar where "SP \<equiv> 0x20"
abbreviation DOT :: jchar where "DOT \<equiv> 0x2E"
abbreviation HYPHEN :: jchar where "HYPHEN \<equiv> 0x2D"
abbreviation BULLET :: jchar where "BULLET \<equiv> 0x2022"

text \<open>
  The code units that \<open>String.prototype.trim\<close> removes and that \<open>\s\<close> matches in a
  regular expression: ECMAScript WhiteSpace and LineTerminator.
\<close>

definition isWhiteSpace :: "jchar \<Rightarrow> bool" where
  "isWhiteSpace c \<longleftrightarrow> c \<in> set [0x09, 0x0A, 0x0B, 0x0C, 0x0D, 0x20, 0xA0, 0x1680,
      0x2000, 0x2001, 0x2002, 0x2003, 0x2004, 0x2005, 0x2006, 0x2007, 0x2008, 0x2009, 0x200A,
      0x2028, 0x2029, 0x202F, 0x205F, 0x3000, 0xFEFF]"

definition trim :: "jstring \<Rightarrow> jstring" where
  "trim s = rev (dropWhile isWhiteSpace (rev (dropWhile isWhiteSpace s)))"

definition startsWith :: "jstring \<Rightarrow> jstring \<Rightarrow> bool" where
  "startsWith s p \<longleftrightarrow> take (length p) s = p"

definition endsWith :: "jstring \<Rightarrow> jstring \<Rightarrow> bool" where
  "endsWith s p \<longleftrightarrow> length p \<le> length s \<and> drop (length s - length p) s = p"

text \<open>\<open>xs.join(sep)\<close> on an array of strings.\<close>

fun join :: "jstring \<Rightarrow> jstring list \<Rightarrow> jstring" where
  "join sep [] = []"
| "join sep [x] = x"
| "join sep (x # y # ys) = x @ sep @ join sep (y # ys)"

text \<open>
  \<open>text.split('\n\n')\<close>: the separator is searched from the left, occurrences do not
  overlap, and the empty string gives one empty segment.
\<close>

fun split_nn :: "jstring \<Rightarrow> jstring list" where
  "split_nn (c # d # cs) =
     (if c = NL \<and> d = NL then [] # split_nn cs
      else (case split_nn (d # cs) of
              p # ps \<Rightarrow> (c # p) # ps
            | [] \<Rightarrow> [[c]]))"
| "split_nn cs = [cs]"

text \<open>\<open>s.split('\n')\<close>.\<close>

fun split_nl :: "jstring \<Rightarrow> jstring list" where
  "split_nl [] = [[]]"
| "split_nl (c # cs) =
     (if c = NL then [] # split_nl cs
      else (case split_nl cs of
              p # ps \<Rightarrow> (c # p) # ps
            | [] \<Rightarrow> [[c]]))"

text \<open>Whether a text contains a blank-line separator, two consecutive newlines.\<close>

fun containsNN :: "jstring \<Rightarrow> bool" where
  "containsNN (c # d # cs) = ((c = NL \<and> d = NL) \<or> containsNN (d # cs))"
| "containsNN cs = False"

section \<open>Blocks\<close>

text \<open>
  A block is the object \<open>{ type, text }\<close>. The type tag is a JavaScript string; the
  reflow functions write \<open>heading_2\<close>, \<open>bulleted_list_item\<close> and \<open>paragraph\<close>, and the
  publishing endpoint reads whatever tag the request carries.
\<close>

record block =
  block_type :: string
  block_text :: jstring

section \<open>Strategy A: \<open>textToNotionBlocks\<close>\<close>

text \<open>\<open>s.replace(/^[\<bullet>-]\s*/, '')\<close>: one leading marker and the white space after it.\<close>

definition replaceMarker :: "jstring \<Rightarrow> jstring" where
  "replaceMarker s =
     (case s of
        [] \<Rightarrow> []
      | c # cs \<Rightarrow> if c = BULLET \<or> c = HYPHEN then dropWhile isWhiteSpace cs else s)"

text \<open>The callback of \<open>paragraphs.map\<close>: heading test on the paragraph as split, then bullet test.\<close>

definition paragraphToBlock :: "jstring \<Rightarrow> block" where
  "paragraphToBlock paragraph =
     (if length paragraph < 100 \<and> \<not> endsWith paragraph [DOT]
      then \<lparr>block_type = ''heading_2'', block_text = trim paragraph\<rparr>
      else if startsWith (trim paragraph) [BULLET] \<or> startsWith (trim paragraph) [HYPHEN]
      then \<lparr>block_type = ''bulleted_list_item'', block_text = replaceMarker (trim paragraph)\<rparr>
      else \<lparr>block_type = ''paragraph'', block_text = trim paragraph\<rparr>)"

definition paragraphs :: "jstring \<Rightarrow> jstring list" where
  "paragraphs text = filter (\<lambda>p. trim p \<noteq> []) (split_nn text)"

definition textToNotionBlocks :: "jstring \<Rightarrow> block list" where
  "textToNotionBlocks text = map paragraphToBlock (paragraphs text)"

section \<open>Strategy B: \<open>parsePDF\<close> with header, footer and heading detection\<close>

text \<open>
  One entry of \<open>page.content\<close> as the extraction library delivers it: the string, the
  vertical position and the rendered height. The numbers are doubles, read as the reals
  they denote (no NaN, no infinity).
\<close>

record item =
  item_str :: jstring
  item_y :: real
  item_height :: real

type_synonym line = "item list"
type_synonym page = "item list"

subsection \<open>\<open>Math.floor(n * 0.7)\<close>\<close>

text \<open>
  The literal \<open>0.7\<close> is the double \<open>6305039478318694 / 2^53\<close>. The product of an
  integer \<open>n\<close> (an array length) with it is rounded to 53 significant bits, ties to even,
  and \<open>Math.floor\<close> truncates the rounded product. The rounding is visible: for 90 the
  result is 62, not 63.
\<close>

fun bitlen :: "nat \<Rightarrow> nat" where
  "bitlen n = (if n = 0 then 0 else Suc (bitlen (n div 2)))"

declare bitlen.simps [simp del]

definition floor_times_0_7 :: "nat \<Rightarrow> nat" where
  "floor_times_0_7 n =
     (let p = n * 6305039478318694;
          s = bitlen p - 53;
          q = p div 2 ^ s;
          r = p mod 2 ^ s;
          m = (if 2 ^ s < 2 * r \<or> (2 * r = 2 ^ s \<and> odd q) then q + 1 else q)
      in (m * 2 ^ s) div 2 ^ 53)"

subsection \<open>Line grouping\<close>

text \<open>
  \<open>Math.abs(item.y - lastY) > 2\<close>. The difference of two doubles is rounded to the
  nearest double, ties to even. The double that follows 2 is \<open>2 + 2^-51\<close>, and the tie
  at the midpoint \<open>2 + 2^-52\<close> goes down to 2, so the rounded difference exceeds 2
  exactly when the exact difference exceeds \<open>2 + 2^-52\<close>.
\<close>

definition farApart :: "real \<Rightarrow> real \<Rightarrow> bool" where
  "farApart v ly \<longleftrightarrow> 2 + 1 / 2 ^ 52 < \<bar>v - ly\<bar>"

text \<open>The three variables of the \<open>page.content.forEach\<close> loop.\<close>

record grouping =
  lines :: "line list"
  currentLine :: line
  lastY :: "real option"

definition groupItem :: "grouping \<Rightarrow> item \<Rightarrow> grouping" where
  "groupItem g it =
     (let far = (case lastY g of None \<Rightarrow> False | Some ly \<Rightarrow> farApart (item_y it) ly);
          g1 = (if far
                then g\<lparr>lines := (if currentLine g \<noteq> [] then lines g @ [currentLine g] else lines g),
                       currentLine := []\<rparr>
                else g)
      in g1\<lparr>currentLine := currentLine g1 @ [it], lastY := Some (item_y it)\<rparr>)"

definition groupLines :: "page \<Rightarrow> line list" where
  "groupLines content =
     (let g = foldl groupItem \<lparr>lines = [], currentLine = [], lastY = None\<rparr> content
      in if currentLine g \<noteq> [] then lines g @ [currentLine g] else lines g)"

text \<open>\<open>line.map(i => i.str).join(' ').trim()\<close>\<close>

definition lineText :: "line \<Rightarrow> jstring" where
  "lineText l = trim (join [SP] (map item_str l))"

definition allPageBlocks :: "page list \<Rightarrow> line list list" where
  "allPageBlocks pages = map groupLines pages"

definition firstLines :: "page list \<Rightarrow> jstring list" where
  "firstLines pages =
     concat (map (\<lambda>ls. case ls of [] \<Rightarrow> [] | l # _ \<Rightarrow> [lineText l]) (allPageBlocks pages))"

definition lastLines :: "page list \<Rightarrow> jstring list" where
  "lastLines pages =
     concat (map (\<lambda>ls. case ls of [] \<Rightarrow> [] | _ # _ \<Rightarrow> [lineText (last ls)]) (allPageBlocks pages))"

subsection \<open>\<open>findRepeatedLines\<close>\<close>

text \<open>
  \<open>counts\<close> is a plain object used as a dictionary, so it inherits the properties of
  \<open>Object.prototype\<close>. For a line whose text is one of these names, \<open>counts[line]\<close> is
  the inherited function, \<open>(counts[line] || 0) + 1\<close> is a string, and the stored value
  is never a number; an assignment of a string to \<open>__proto__\<close> stores nothing.
\<close>

definition Object_prototype_names :: "jstring list" where
  "Object_prototype_names = map js
     [''constructor'', ''hasOwnProperty'', ''isPrototypeOf'', ''propertyIsEnumerable'',
      ''toLocaleString'', ''toString'', ''valueOf'', ''__defineGetter__'', ''__defineSetter__'',
      ''__lookupGetter__'', ''__lookupSetter__'', ''__proto__'']"

datatype count = Count nat | NotANumber

type_synonym counts = "(jstring \<times> count) list"

text \<open>Own properties are kept in creation order; a write to an existing key keeps its place.\<close>

fun setProperty :: "jstring \<Rightarrow> count \<Rightarrow> counts \<Rightarrow> counts" where
  "setProperty k v [] = [(k, v)]"
| "setProperty k v ((k', v') # kvs) =
     (if k = k' then (k, v) # kvs else (k', v') # setProperty k v kvs)"

definition countLine :: "counts \<Rightarrow> jstring \<Rightarrow> counts" where
  "countLine cs l =
     (if l = [] then cs
      else (case map_of cs l of
              Some (Count n) \<Rightarrow> setProperty l (Count (n + 1)) cs
            | Some NotANumber \<Rightarrow> setProperty l NotANumber cs
            | None \<Rightarrow>
                if l = js ''__proto__'' then cs
                else if l \<in> set Object_prototype_names then setProperty l NotANumber cs
                else setProperty l (Count 1) cs))"

text \<open>
  \<open>Object.entries\<close> lists the keys that are array indices (canonical decimal strings
  below \<open>2^32 - 1\<close>) first, in ascending numeric order, then the other keys in creation
  order.
\<close>

definition isDigit :: "jchar \<Rightarrow> bool" where
  "isDigit c \<longleftrightarrow> 0x30 \<le> c \<and> c \<le> 0x39"

definition digitsValue :: "jstring \<Rightarrow> nat" where
  "digitsValue s = foldl (\<lambda>n c. 10 * n + (unat c - 48)) 0 s"

definition isArrayIndex :: "jstring \<Rightarrow> bool" where
  "isArrayIndex s \<longleftrightarrow>
     (case s of
        [] \<Rightarrow> False
      | c # cs \<Rightarrow> list_all isDigit s \<and> (if c = 0x30 then cs = [] else True)
                \<and> digitsValue s < 4294967295)"

definition Object_entries :: "counts \<Rightarrow> counts" where
  "Object_entries cs =
     sort_key (\<lambda>kv. digitsValue (fst kv)) (filter (\<lambda>kv. isArrayIndex (fst kv)) cs)
     @ filter (\<lambda>kv. \<not> isArrayIndex (fst kv)) cs"

text \<open>\<open>count >= threshold\<close>: a string that is not numeric compares false.\<close>

fun reaches :: "count \<Rightarrow> nat \<Rightarrow> bool" where
  "reaches (Count n) threshold = (threshold \<le> n)"
| "reaches NotANumber threshold = False"

definition findRepeatedLines :: "nat \<Rightarrow> jstring list \<Rightarrow> jstring list" where
  "findRepeatedLines pageCount linesArr =
     (let counts = foldl countLine [] linesArr;
          threshold = floor_times_0_7 pageCount
      in map fst (filter (\<lambda>kv. reaches (snd kv) threshold) (Object_entries counts)))"

subsection \<open>Blocks of a line\<close>

text \<open>\<open>Math.max(...xs)\<close>; \<open>None\<close> stands for the \<open>-Infinity\<close> of an empty argument list.\<close>

fun Math_max :: "real list \<Rightarrow> real option" where
  "Math_max [] = None"
| "Math_max (h # hs) = Some (fold max hs h)"

text \<open>The callback of the inner \<open>lines.forEach\<close>: the blocks it pushes for one line.\<close>

definition lineBlocks :: "jstring list \<Rightarrow> jstring list \<Rightarrow> line \<Rightarrow> block list" where
  "lineBlocks rHeaders rFooters l =
     (let text = lineText l in
      if text = [] then []
      else if text \<in> set rHeaders \<or> text \<in> set rFooters then []
      else
        let fontSizes = map item_height l;
            isHeading =
              (case Math_max fontSizes of
                 None \<Rightarrow> False
               | Some maxFont \<Rightarrow>
                   floor_times_0_7 (length l) \<le> length (filter (\<lambda>h. h = maxFont) fontSizes)
                   \<and> 10 < maxFont)
        in if isHeading then [\<lparr>block_type = ''heading_2'', block_text = text\<rparr>]
           else [\<lparr>block_type = ''paragraph'', block_text = text\<rparr>])"

definition bodyBlocks :: "jstring list \<Rightarrow> jstring list \<Rightarrow> page list \<Rightarrow> block list" where
  "bodyBlocks rHeaders rFooters pages =
     concat (map (\<lambda>ls. concat (map (lineBlocks rHeaders rFooters) ls)) (allPageBlocks pages))"

record parsed =
  blocks :: "block list"
  pageCount :: nat
  repeatedHeaders :: "jstring list"
  repeatedFooters :: "jstring list"

text \<open>
  \<open>parsePDF\<close> from the extracted \<open>data.pages\<close> on. A failed read or extraction is
  rethrown before any of this runs, so no partial result exists.
\<close>

definition parsePDF :: "page list \<Rightarrow> parsed" where
  "parsePDF pages =
     (let rHeaders = findRepeatedLines (length pages) (firstLines pages);
          rFooters = findRepeatedLines (length pages) (lastLines pages);
          body = bodyBlocks rHeaders rFooters pages;
          withHeader = (case rHeaders of
                          [] \<Rightarrow> body
                        | h # _ \<Rightarrow> \<lparr>block_type = ''paragraph'', block_text = h\<rparr> # body);
          withFooter = (case rFooters of
                          [] \<Rightarrow> withHeader
                        | f # _ \<Rightarrow> withHeader @ [\<lparr>block_type = ''paragraph'', block_text = f\<rparr>])
      in \<lparr>blocks = withFooter, pageCount = length pages,
          repeatedHeaders = rHeaders, repeatedFooters = rFooters\<rparr>)"

section \<open>Publishing: the block mapping of \<open>/api/notion/create\<close>\<close>

text \<open>
  The object built for one block:
  \<open>{ object: 'block', type: T, [T]: { rich_text: [{ type: 'text', text: { content } }] } }\<close>.
  \<open>container\<close> is the name of the property that holds the rich text.
\<close>

record rich_text =
  rich_type :: string
  rich_content :: jstring

record notion_block =
  notion_object :: string
  notion_type :: string
  container :: string
  container_rich_text :: "rich_text list"

text \<open>The callback of \<open>blocks.map\<close> in the handler with three branches.\<close>

definition toNotionBlock :: "block \<Rightarrow> notion_block" where
  "toNotionBlock b =
     (if block_type b = ''heading_2''
      then \<lparr>notion_object = ''block'', notion_type = ''heading_2'', container = ''heading_2'',
            container_rich_text = [\<lparr>rich_type = ''text'', rich_content = block_text b\<rparr>]\<rparr>
      else if block_type b = ''bulleted_list_item''
      then \<lparr>notion_object = ''block'', notion_type = ''bulleted_list_item'',
            container = ''bulleted_list_item'',
            container_rich_text = [\<lparr>rich_type = ''text'', rich_content = block_text b\<rparr>]\<rparr>
      else \<lparr>notion_object = ''block'', notion_type = ''paragraph'', container = ''paragraph'',
            container_rich_text = [\<lparr>rich_type = ''text'', rich_content = block_text b\<rparr>]\<rparr>)"

text \<open>
  The callback of the handler that accompanies the geometric \<open>parsePDF\<close>: it has no
  branch for list items.
\<close>

definition toNotionBlock_headings_only :: "block \<Rightarrow> notion_block" where
  "toNotionBlock_headings_only b =
     (if block_type b = ''heading_2''
      then \<lparr>notion_object = ''block'', notion_type = ''heading_2'', container = ''heading_2'',
            container_rich_text = [\<lparr>rich_type = ''text'', rich_content = block_text b\<rparr>]\<rparr>
      else \<lparr>notion_object = ''block'', notion_type = ''paragraph'', container = ''paragraph'',
            container_rich_text = [\<lparr>rich_type = ''text'', rich_content = block_text b\<rparr>]\<rparr>)"

text \<open>\<open>children: notionBlocks.slice(0, 100)\<close>\<close>

definition children :: "(block \<Rightarrow> notion_block) \<Rightarrow> block list \<Rightarrow> notion_block list" where
  "children f bs = take 100 (map f bs)"

section \<open>Salvage of the generated text in \<open>/api/ai/structure\<close>\<close>

text \<open>
  JavaScript values as \<open>JSON.parse\<close> builds them, with \<open>undefined\<close> for a property
  that is absent. An object is its list of own properties.
\<close>

datatype jsval =
    Undefined
  | JNull
  | JBool bool
  | JNumber real
  | JString jstring
  | JArray "jsval list"
  | JObject "(jstring \<times> jsval) list"

text \<open>
  What the runtime supplies: \<open>JSON.parse\<close> (\<open>None\<close> when it throws) and the conversion
  of a number to a string.
\<close>

record runtime =
  JSON_parse :: "jstring \<Rightarrow> jsval option"
  Number_toString :: "real \<Rightarrow> jstring"

fun truthy :: "jsval \<Rightarrow> bool" where
  "truthy Undefined = False"
| "truthy JNull = False"
| "truthy (JBool b) = b"
| "truthy (JNumber r) = (r \<noteq> 0)"
| "truthy (JString s) = (s \<noteq> [])"
| "truthy (JArray xs) = True"
| "truthy (JObject kvs) = True"

text \<open>
  \<open>v.name\<close> for the names read here (\<open>paragraph\<close>, \<open>heading_1\<close>, \<open>rich_text\<close>,
  \<open>text\<close>, \<open>content\<close>), which no prototype defines, on a value that is neither
  \<open>null\<close> nor \<open>undefined\<close>.
\<close>

fun getProp :: "string \<Rightarrow> jsval \<Rightarrow> jsval" where
  "getProp name (JObject kvs) = (case map_of kvs (js name) of None \<Rightarrow> Undefined | Some v \<Rightarrow> v)"
| "getProp name v = Undefined"

text \<open>\<open>v[0]\<close> on a value that is neither \<open>null\<close> nor \<open>undefined\<close>.\<close>

fun index0 :: "jsval \<Rightarrow> jsval" where
  "index0 (JArray xs) = (case xs of [] \<Rightarrow> Undefined | x # _ \<Rightarrow> x)"
| "index0 (JString s) = (case s of [] \<Rightarrow> Undefined | c # _ \<Rightarrow> JString [c])"
| "index0 (JObject kvs) = (case map_of kvs (js ''0'') of None \<Rightarrow> Undefined | Some v \<Rightarrow> v)"
| "index0 v = Undefined"

text \<open>
  \<open>block[k] && block[k].rich_text && block[k].rich_text[0] && block[k].rich_text[0].text\<close>:
  each operand is read only when the one before it is truthy.
\<close>

definition richTextGuard :: "string \<Rightarrow> jsval \<Rightarrow> jsval" where
  "richTextGuard k b =
     (let c = getProp k b in
      if \<not> truthy c then c
      else let r = getProp ''rich_text'' c in
        if \<not> truthy r then r
        else let e = index0 r in
          if \<not> truthy e then e else getProp ''text'' e)"

datatype exn = TypeError

text \<open>
  The callback of \<open>parsed.map\<close>. Reading a property of \<open>null\<close> throws; every later read
  is on a truthy value.
\<close>

definition blockContent :: "jsval \<Rightarrow> exn + jsval" where
  "blockContent b =
     (if b = JNull \<or> b = Undefined then Inl TypeError
      else if truthy (richTextGuard ''paragraph'' b)
      then Inr (getProp ''content'' (getProp ''text'' (index0 (getProp ''rich_text'' (getProp ''paragraph'' b)))))
      else if truthy (richTextGuard ''heading_1'' b)
      then Inr (getProp ''content'' (getProp ''text'' (index0 (getProp ''rich_text'' (getProp ''heading_1'' b)))))
      else if truthy (getProp ''text'' b) then Inr (getProp ''text'' b)
      else Inr (JString []))"

fun mapContents :: "jsval list \<Rightarrow> exn + jsval list" where
  "mapContents [] = Inr []"
| "mapContents (b # bs) =
     (case blockContent b of
        Inl e \<Rightarrow> Inl e
      | Inr v \<Rightarrow> (case mapContents bs of Inl e \<Rightarrow> Inl e | Inr vs \<Rightarrow> Inr (v # vs)))"

text \<open>The results of a list of steps, up to the first that throws.\<close>

fun collect :: "(exn + 'a) list \<Rightarrow> exn + 'a list" where
  "collect [] = Inr []"
| "collect (r # rs) =
     (case r of
        Inl e \<Rightarrow> Inl e
      | Inr v \<Rightarrow> (case collect rs of Inl e \<Rightarrow> Inl e | Inr vs \<Rightarrow> Inr (v # vs)))"

text \<open>
  The string an array element contributes to \<open>join\<close>: nothing for \<open>null\<close> and
  \<open>undefined\<close>, and the result of \<open>ToString\<close> otherwise. An array is joined with commas
  in the same way. An object gives \<open>[object Object]\<close> through the inherited \<open>toString\<close>;
  when it has a property \<open>toString\<close> of its own, which in parsed JSON is never a function,
  the conversion finds no method that returns a primitive and throws.
\<close>

fun joinElement :: "(real \<Rightarrow> jstring) \<Rightarrow> jsval \<Rightarrow> exn + jstring" where
  "joinElement num Undefined = Inr []"
| "joinElement num JNull = Inr []"
| "joinElement num (JBool b) = Inr (if b then js ''true'' else js ''false'')"
| "joinElement num (JNumber r) = Inr (num r)"
| "joinElement num (JString s) = Inr s"
| "joinElement num (JArray xs) =
     (case collect (map (joinElement num) xs) of
        Inl e \<Rightarrow> Inl e
      | Inr strs \<Rightarrow> Inr (join (js '','') strs))"
| "joinElement num (JObject kvs) =
     (if js ''toString'' \<in> set (map fst kvs) then Inl TypeError
      else Inr (js ''[object Object]''))"

text \<open>The lines that begin a Markdown fence are dropped when the response begins with one.\<close>

definition stripFences :: "jstring \<Rightarrow> jstring" where
  "stripFences responseContent =
     (if startsWith (trim responseContent) (js ''```'')
      then join [NL] (filter (\<lambda>l. \<not> startsWith (trim l) (js ''```'')) (split_nl responseContent))
      else responseContent)"

text \<open>
  The value of \<open>plainText\<close> after the \<open>try\<close> block: whatever throws inside it, the
  parse, the callback or the join, leaves the response as it was.
\<close>

definition plainText :: "runtime \<Rightarrow> jstring \<Rightarrow> jstring" where
  "plainText rt responseContent =
     (case JSON_parse rt (stripFences responseContent) of
        None \<Rightarrow> responseContent
      | Some parsed \<Rightarrow>
          (case parsed of
             JArray bs \<Rightarrow>
               (case mapContents bs of
                  Inl e \<Rightarrow> responseContent
                | Inr vs \<Rightarrow>
                    (case collect (map (joinElement (Number_toString rt)) (filter truthy vs)) of
                       Inl e \<Rightarrow> responseContent
                     | Inr strs \<Rightarrow> join [NL, NL] strs))
           | _ \<Rightarrow> responseContent))"

section \<open>Sample inputs\<close>

text \<open>Concrete texts, pages and responses at which the theorems below are instantiated.\<close>

definition summary_text :: jstring where
  "summary_text = js ''Summary'' @ [NL, NL] @ js ''This is a longer paragraph that ends with a period.''"

definition fragment :: "string \<Rightarrow> real \<Rightarrow> real \<Rightarrow> item" where
  "fragment s v h = \<lparr>item_str = js s, item_y = v, item_height = h\<rparr>"

definition two_headers_doc :: "page list" where
  "two_headers_doc = [[fragment ''A'' 0 12, fragment ''x'' 20 9], [fragment ''B'' 0 12, fragment ''y'' 20 9]]"

text \<open>Two fragments at the doubles written \<open>0.1\<close> and \<open>2.1\<close>.\<close>

definition rounded_gap_page :: page where
  "rounded_gap_page =
     [fragment ''a'' (3602879701896397 / 2 ^ 55) 9, fragment ''b'' (4728779608739021 / 2 ^ 51) 9]"

definition header_as_footer_doc :: "page list" where
  "header_as_footer_doc =
     [[fragment ''A'' 0 12, fragment ''T'' 20 9], [fragment ''T'' 0 12, fragment ''x'' 20 9]]"

definition running_header_doc :: "page list" where
  "running_header_doc =
     [[fragment ''Title'' 0 12, fragment ''a'' 20 9],
      [fragment ''Title'' 0 12, fragment ''b'' 20 9],
      [fragment ''Title'' 0 12, fragment ''c'' 20 9]]"

definition constructor_page :: page where
  "constructor_page = [fragment ''constructor'' 0 12]"

definition fenced_response :: jstring where
  \<open>fenced_response = js ''```json'' @ [NL] @ js ''[{"text":"Hello"}]'' @ [NL] @ js ''```''\<close>

definition hello_array :: jsval where
  "hello_array = JArray [JObject [(js ''text'', JString (js ''Hello''))]]"

definition sample_runtime :: runtime where
  \<open>sample_runtime =
     \<lparr>JSON_parse = (\<lambda>s. if s = js ''[{"text":"Hello"}]'' then Some hello_array else None),
      Number_toString = (\<lambda>r. [])\<rparr>\<close>

section \<open>Facts about strings\<close>

lemma last_dropWhile: "dropWhile P xs \<noteq> [] \<Longrightarrow> last (dropWhile P xs) = last xs"
  by (induction xs) (auto split: if_splits)

lemma hd_dropWhile_not: "dropWhile P xs \<noteq> [] \<Longrightarrow> \<not> P (hd (dropWhile P xs))"
  using hd_dropWhile by blast

lemma dropWhile_keep: "ys \<noteq> [] \<Longrightarrow> \<not> P (hd ys) \<Longrightarrow> dropWhile P ys = ys"
  by (cases ys) auto

lemma trim_Nil: "trim [] = []"
  by (simp add: trim_def)

lemma trim_last: "trim s \<noteq> [] \<Longrightarrow> \<not> isWhiteSpace (last (trim s))"
  unfolding trim_def by (simp add: last_rev hd_dropWhile)

lemma trim_hd: assumes "trim s \<noteq> []" shows "\<not> isWhiteSpace (hd (trim s))"
proof -
  let ?d = "dropWhile isWhiteSpace s"
  have d: "?d \<noteq> []"
  proof
    assume "?d = []"
    then have "trim s = []" unfolding trim_def by (simp only: rev.simps dropWhile.simps)
    with assms show False by simp
  qed
  from assms have r: "dropWhile isWhiteSpace (rev ?d) \<noteq> []" by (simp add: trim_def)
  have "hd (trim s) = last (dropWhile isWhiteSpace (rev ?d))"
    using r by (simp add: trim_def hd_rev)
  also have "\<dots> = last (rev ?d)" using r by (rule last_dropWhile)
  also have "\<dots> = hd ?d" using d by (simp add: last_rev)
  finally show ?thesis using d hd_dropWhile by metis
qed

lemma trim_fixed: assumes "xs = [] \<or> (\<not> isWhiteSpace (hd xs) \<and> \<not> isWhiteSpace (last xs))"
  shows "trim xs = xs"
proof (cases xs)
  case Nil then show ?thesis by (simp add: trim_def)
next
  case (Cons a as)
  with assms have h: "\<not> isWhiteSpace (hd xs)" and l: "\<not> isWhiteSpace (last xs)" by auto
  have 1: "dropWhile isWhiteSpace xs = xs" using Cons h by simp
  have "rev xs \<noteq> []" using Cons by simp
  moreover have "hd (rev xs) = last xs" using \<open>rev xs \<noteq> []\<close> by (simp only: hd_rev rev_rev_ident)
  then have "\<not> isWhiteSpace (hd (rev xs))" using l by simp
  ultimately have 2: "dropWhile isWhiteSpace (rev xs) = rev xs"
    by (rule dropWhile_keep)
  show ?thesis by (simp add: trim_def 1 2)
qed

lemma trim_trim: "trim (trim s) = trim s"
  by (rule trim_fixed) (use trim_hd trim_last in blast)

lemma isWhiteSpace_NL: "isWhiteSpace NL"
  by (simp add: isWhiteSpace_def)

lemma trimmed_last_not_NL: "trim p = p \<Longrightarrow> p \<noteq> [] \<Longrightarrow> last p \<noteq> NL"
  using trim_last[of p] isWhiteSpace_NL by auto

text \<open>Three newlines: the third stays at the head of the next segment.\<close>

lemma split_nn_three_newlines:
  "split_nn (js ''a'' @ [NL, NL, NL] @ js ''b'') = [js ''a'', NL # js ''b'']"
  by code_simp

lemma split_nn_empty_text: "split_nn [] = [[]]"
  by simp

lemma split_nn_nonempty: "split_nn xs \<noteq> []"
  by (induction xs rule: split_nn.induct) (auto split: list.splits)

lemma split_nn_no_sep: "\<not> containsNN t \<Longrightarrow> split_nn t = [t]"
  by (induction t rule: split_nn.induct) (auto split: list.splits)

lemma split_nn_hd: "split_nn (d # cs) = p # ps \<Longrightarrow> p = [] \<or> hd p = d"
  by (cases cs) (auto split: if_splits list.splits)

lemma split_nn_segments: "p \<in> set (split_nn t) \<Longrightarrow> \<not> containsNN p"
proof (induction t arbitrary: p rule: split_nn.induct)
  case (1 c d cs)
  show ?case
  proof (cases "c = NL \<and> d = NL")
    case True
    with 1 show ?thesis by auto
  next
    case False
    obtain q qs where s: "split_nn (d # cs) = q # qs"
      using split_nn_nonempty by (cases "split_nn (d # cs)") auto
    from False s have eq: "split_nn (c # d # cs) = (c # q) # qs" by simp
    have q: "\<not> containsNN q" using 1(2)[OF False, of q] s by simp
    have hq: "q = [] \<or> hd q = d" using s by (rule split_nn_hd)
    have "\<not> containsNN (c # q)"
    proof (cases q)
      case Nil then show ?thesis by simp
    next
      case (Cons e q')
      with hq have "e = d" by simp
      with Cons q False show ?thesis by auto
    qed
    moreover have "\<And>r. r \<in> set qs \<Longrightarrow> \<not> containsNN r"
      using 1(2)[OF False] s by simp
    ultimately show ?thesis using 1(3) eq by auto
  qed
qed auto

lemma split_nn_append:
  "\<not> containsNN p \<Longrightarrow> p = [] \<or> last p \<noteq> NL \<Longrightarrow> split_nn (p @ NL # NL # rest) = p # split_nn rest"
  by (induction p rule: containsNN.induct) (auto split: if_splits)

lemma split_nn_join_aux:
  "sep = [NL, NL] \<Longrightarrow> ps \<noteq> [] \<Longrightarrow> \<forall>p\<in>set ps. \<not> containsNN p \<and> (p = [] \<or> last p \<noteq> NL)
    \<Longrightarrow> split_nn (join sep ps) = ps"
proof (induction sep ps rule: join.induct)
  case (1 sep) then show ?case by simp
next
  case (2 sep x) then show ?case by (simp add: split_nn_no_sep)
next
  case (3 sep x y ys)
  then show ?case by (simp add: split_nn_append)
qed

lemma split_nn_join:
  assumes "ps \<noteq> []" and "\<forall>p\<in>set ps. \<not> containsNN p \<and> (p = [] \<or> last p \<noteq> NL)"
  shows "split_nn (join [NL, NL] ps) = ps"
  using split_nn_join_aux[OF refl assms] .

section \<open>Strategy A: paragraphs and their blocks\<close>

lemma paragraphs_member: "p \<in> set (paragraphs t) \<Longrightarrow> trim p \<noteq> [] \<and> \<not> containsNN p"
  by (auto simp: paragraphs_def split_nn_segments)

lemma paragraphs_join:
  assumes "\<forall>p\<in>set (paragraphs t). trim p = p"
  shows "paragraphs (join [NL, NL] (paragraphs t)) = paragraphs t"
proof (cases "paragraphs t = []")
  case True
  then show ?thesis by (simp add: paragraphs_def trim_Nil)
next
  case False
  have props: "\<forall>p\<in>set (paragraphs t). \<not> containsNN p \<and> (p = [] \<or> last p \<noteq> NL)"
  proof
    fix p assume p: "p \<in> set (paragraphs t)"
    then have "trim p \<noteq> []" "\<not> containsNN p" using paragraphs_member by auto
    moreover have "trim p = p" using assms p by simp
    ultimately show "\<not> containsNN p \<and> (p = [] \<or> last p \<noteq> NL)"
      using trimmed_last_not_NL by auto
  qed
  have "split_nn (join [NL, NL] (paragraphs t)) = paragraphs t"
    using False props by (rule split_nn_join)
  then have "paragraphs (join [NL, NL] (paragraphs t)) = filter (\<lambda>p. trim p \<noteq> []) (paragraphs t)"
    by (simp add: paragraphs_def)
  also have "\<dots> = paragraphs t"
    by (simp add: paragraphs_def)
  finally show ?thesis .
qed

lemma heading_before_bullet:
  "length p < 100 \<Longrightarrow> \<not> endsWith p [DOT] \<Longrightarrow> block_type (paragraphToBlock p) = ''heading_2''"
  by (simp add: paragraphToBlock_def)

lemma block_text_not_bullet:
  "block_type (paragraphToBlock p) \<noteq> ''bulleted_list_item'' \<Longrightarrow> block_text (paragraphToBlock p) = trim p"
  by (simp add: paragraphToBlock_def split: if_splits)

lemma texts_are_paragraphs:
  assumes "\<forall>p\<in>set (paragraphs t). trim p = p"
    and "\<forall>b\<in>set (textToNotionBlocks t). block_type b \<noteq> ''bulleted_list_item''"
  shows "map block_text (textToNotionBlocks t) = paragraphs t"
proof -
  have "\<forall>p\<in>set (paragraphs t). block_text (paragraphToBlock p) = p"
    using assms by (auto simp: textToNotionBlocks_def block_text_not_bullet)
  then show ?thesis
    by (simp add: textToNotionBlocks_def map_idI)
qed

lemma rerun_same_blocks:
  assumes "\<forall>p\<in>set (paragraphs t). trim p = p"
    and "\<forall>b\<in>set (textToNotionBlocks t). block_type b \<noteq> ''bulleted_list_item''"
  shows "textToNotionBlocks (join [NL, NL] (map block_text (textToNotionBlocks t))) = textToNotionBlocks t"
proof -
  have "map block_text (textToNotionBlocks t) = paragraphs t"
    using assms by (rule texts_are_paragraphs)
  then have "textToNotionBlocks (join [NL, NL] (map block_text (textToNotionBlocks t)))
      = map paragraphToBlock (paragraphs (join [NL, NL] (paragraphs t)))"
    by (simp only: textToNotionBlocks_def)
  also have "\<dots> = map paragraphToBlock (paragraphs t)"
    using assms(1) by (simp only: paragraphs_join)
  finally show ?thesis by (simp only: textToNotionBlocks_def)
qed

lemma replaceMarker_trimmed: "trim (replaceMarker (trim p)) = replaceMarker (trim p)"
proof (cases "trim p")
  case Nil
  then show ?thesis by (simp add: replaceMarker_def trim_Nil)
next
  case (Cons c cs)
  show ?thesis
  proof (cases "c = BULLET \<or> c = HYPHEN")
    case False
    then show ?thesis using Cons trim_trim[of p] by (simp add: replaceMarker_def)
  next
    case True
    let ?d = "dropWhile isWhiteSpace cs"
    have r: "replaceMarker (trim p) = ?d" using Cons True by (auto simp: replaceMarker_def)
    have "trim ?d = ?d"
    proof (rule trim_fixed, cases "?d = []")
      case True then show "?d = [] \<or> \<not> isWhiteSpace (hd ?d) \<and> \<not> isWhiteSpace (last ?d)" by simp
    next
      case False
      then have cs: "cs \<noteq> []" by auto
      have "last ?d = last cs" using False by (rule last_dropWhile)
      also have "\<dots> = last (trim p)" using Cons cs by simp
      finally have "\<not> isWhiteSpace (last ?d)" using trim_last[of p] Cons by simp
      moreover have "\<not> isWhiteSpace (hd ?d)" using False by (rule hd_dropWhile_not)
      ultimately show "?d = [] \<or> \<not> isWhiteSpace (hd ?d) \<and> \<not> isWhiteSpace (last ?d)" by simp
    qed
    with r show ?thesis by simp
  qed
qed

lemma paragraphToBlock_trimmed: "trim (block_text (paragraphToBlock p)) = block_text (paragraphToBlock p)"
  by (simp add: paragraphToBlock_def trim_trim replaceMarker_trimmed)

lemma paragraphToBlock_nonempty:
  "trim p \<noteq> [] \<Longrightarrow> block_type (paragraphToBlock p) \<noteq> ''bulleted_list_item'' \<Longrightarrow> block_text (paragraphToBlock p) \<noteq> []"
  by (simp add: block_text_not_bullet)

lemma paragraphToBlock_bullet:
  assumes "block_type (paragraphToBlock p) = ''bulleted_list_item''"
  shows "\<exists>m rest. (m = BULLET \<or> m = HYPHEN) \<and> trim p = m # rest
           \<and> block_text (paragraphToBlock p) = dropWhile isWhiteSpace rest"
proof -
  from assms have s: "startsWith (trim p) [BULLET] \<or> startsWith (trim p) [HYPHEN]"
    and t: "block_text (paragraphToBlock p) = replaceMarker (trim p)"
    by (auto simp: paragraphToBlock_def split: if_splits)
  from s obtain m rest where m: "trim p = m # rest" "m = BULLET \<or> m = HYPHEN"
    by (cases "trim p") (auto simp: startsWith_def)
  then have "replaceMarker (trim p) = dropWhile isWhiteSpace rest"
    by (auto simp: replaceMarker_def)
  with m t show ?thesis by auto
qed

text \<open>
  C1. A paragraph whose trimmed text is shorter than 100 code units and does not end with
  a period is to be a heading. The heading test reads the length of the segment as split,
  white space included: 99 letters followed by a newline form a segment of length 100,
  whose trimmed text has length 99 and no final period, and the block is a paragraph.
  Where the segment as split passes the test, the heading does win over the bullet
  (\<open>heading_before_bullet\<close>).
\<close>

theorem C1_heading_test_counts_untrimmed_length:
  "paragraphs (replicate 99 0x61 @ [NL]) = [replicate 99 0x61 @ [NL]]
   \<and> length (replicate 99 0x61 @ [NL] :: jstring) = 100
   \<and> trim (replicate 99 0x61 @ [NL]) = replicate 99 0x61
   \<and> length (replicate 99 0x61 :: jstring) < 100
   \<and> \<not> endsWith (replicate 99 0x61) [DOT]
   \<and> textToNotionBlocks (replicate 99 0x61 @ [NL])
       = [\<lparr>block_type = ''paragraph'', block_text = replicate 99 0x61\<rparr>]"
  by code_simp

text \<open>
  C2, as stated: the two bullet-prefixed paragraphs become two bulleted list items. They
  do not.
\<close>

theorem C2_not_bullet_items:
  "textToNotionBlocks (js ''- item one'' @ [NL, NL] @ js ''- item two'')
   \<noteq> [\<lparr>block_type = ''bulleted_list_item'', block_text = js ''item one''\<rparr>,
       \<lparr>block_type = ''bulleted_list_item'', block_text = js ''item two''\<rparr>]"
  by code_simp

text \<open>
  C2, amended: both paragraphs are short and end without a period, so the heading test,
  which comes first, makes each a heading that keeps its marker.
\<close>

theorem C2_bullet_scenario_gives_headings:
  "textToNotionBlocks (js ''- item one'' @ [NL, NL] @ js ''- item two'')
   = [\<lparr>block_type = ''heading_2'', block_text = js ''- item one''\<rparr>,
      \<lparr>block_type = ''heading_2'', block_text = js ''- item two''\<rparr>]"
  by code_simp




text \<open>
  C5, as stated: running the classifier again on the texts of its blocks, joined by blank
  lines, gives the same block types. A list item ending with a period loses its marker in
  the first run and is a paragraph in the second.
\<close>

theorem C5_rerun_changes_types:
  "map block_type (textToNotionBlocks (js ''- First point.'')) = [''bulleted_list_item'']
   \<and> join [NL, NL] (map block_text (textToNotionBlocks (js ''- First point.''))) = js ''First point.''
   \<and> map block_type (textToNotionBlocks (js ''First point.'')) = [''paragraph'']"
  by code_simp

text \<open>
  White space after a final period has the same effect: the segment is a heading in the
  first run and its trimmed text is a paragraph in the second.
\<close>

lemma rerun_after_trailing_space:
  "map block_type (textToNotionBlocks (js ''Done. '')) = [''heading_2'']
   \<and> join [NL, NL] (map block_text (textToNotionBlocks (js ''Done. ''))) = js ''Done.''
   \<and> map block_type (textToNotionBlocks (js ''Done.'')) = [''paragraph'']"
  by code_simp

text \<open>
  C5, amended: when every kept segment of the input is free of surrounding white space
  and no block of the first run is a list item, the second run gives the same block types
  (indeed the same blocks, \<open>rerun_same_blocks\<close>).
\<close>

theorem C5_rerun_same_types:
  assumes "\<forall>p\<in>set (paragraphs text). trim p = p"
    and "\<forall>b\<in>set (textToNotionBlocks text). block_type b \<noteq> ''bulleted_list_item''"
  shows "map block_type (textToNotionBlocks (join [NL, NL] (map block_text (textToNotionBlocks text))))
         = map block_type (textToNotionBlocks text)"
  using assms by (simp add: rerun_same_blocks)

text \<open>
  C5 at the text of a title and a sentence, separated by a blank line.
\<close>

theorem C5_rerun_same_types_witness:
  "map block_type (textToNotionBlocks (join [NL, NL] (map block_text (textToNotionBlocks summary_text))))
   = [''heading_2'', ''paragraph'']"
proof -
  have 1: "\<forall>p\<in>set (paragraphs summary_text). trim p = p" by code_simp
  have 2: "\<forall>b\<in>set (textToNotionBlocks summary_text). block_type b \<noteq> ''bulleted_list_item''"
    by code_simp
  have 3: "map block_type (textToNotionBlocks summary_text) = [''heading_2'', ''paragraph'']"
    by code_simp
  show ?thesis using C5_rerun_same_types[OF 1 2] 3 by simp
qed

section \<open>Strategy B: thresholds, repeated lines and line blocks\<close>

lemma bitlen_numeral: "bitlen (numeral k) = Suc (bitlen (numeral k div 2))"
  by (subst bitlen.simps) simp

lemma bitlen_0: "bitlen 0 = 0"
  by (subst bitlen.simps) simp

lemma bitlen_Suc_0: "bitlen (Suc 0) = 1"
  by (subst bitlen.simps) (simp add: bitlen_0)

lemma floor_times_0_7_1: "floor_times_0_7 1 = 0"
  by (simp add: floor_times_0_7_def Let_def bitlen_numeral bitlen_0 bitlen_Suc_0)

lemma floor_times_0_7_Suc_0: "floor_times_0_7 (Suc 0) = 0"
  using floor_times_0_7_1 by simp

lemma floor_times_0_7_2: "floor_times_0_7 2 = 1"
  by (simp add: floor_times_0_7_def Let_def bitlen_numeral bitlen_0 bitlen_Suc_0)

lemma floor_times_0_7_3: "floor_times_0_7 3 = 2"
  by (simp add: floor_times_0_7_def Let_def bitlen_numeral bitlen_0 bitlen_Suc_0)

lemma floor_times_0_7_10: "floor_times_0_7 10 = 7"
  by (simp add: floor_times_0_7_def Let_def bitlen_numeral bitlen_0 bitlen_Suc_0)

text \<open>The rounded product \<open>90 * 0.7\<close> is just below 63.\<close>

lemma floor_times_0_7_90: "floor_times_0_7 90 = 62"
  by (simp add: floor_times_0_7_def Let_def bitlen_numeral bitlen_0 bitlen_Suc_0)

lemma bitlen_le: "p < 2 ^ k \<Longrightarrow> bitlen p \<le> k"
proof (induction k arbitrary: p)
  case 0
  then show ?case by (simp add: bitlen_0)
next
  case (Suc k)
  show ?case
  proof (cases "p = 0")
    case True
    then show ?thesis by (simp add: bitlen_0)
  next
    case False
    have "p div 2 < 2 ^ k" using Suc.prems by simp
    then have "bitlen (p div 2) \<le> k" by (rule Suc.IH)
    then show ?thesis using False by (subst bitlen.simps) simp
  qed
qed

lemma rounded_product_bounds:
  assumes "n < 2 ^ 32"
  defines "p \<equiv> n * 6305039478318694"
  defines "s \<equiv> bitlen p - 53"
  defines "m \<equiv> (if 2 ^ s < 2 * (p mod 2 ^ s) \<or> (2 * (p mod 2 ^ s) = 2 ^ s \<and> odd (p div 2 ^ s))
                then p div 2 ^ s + 1 else p div 2 ^ s)"
  shows "floor_times_0_7 n = (m * 2 ^ s) div 2 ^ 53"
    and "10 * (m * 2 ^ s) + 4 * n + 10 * 2 ^ 32 > 7 * n * 2 ^ 53"
    and "10 * (m * 2 ^ s) + 4 * n \<le> 7 * n * 2 ^ 53 + 10 * 2 ^ 32"
proof -
  show "floor_times_0_7 n = (m * 2 ^ s) div 2 ^ 53"
    by (simp add: floor_times_0_7_def Let_def p_def s_def m_def)
  have "p < 2 ^ 32 * 6305039478318694" using assms(1) by (simp add: p_def)
  also have "\<dots> < 2 ^ 85" by simp
  finally have "bitlen p \<le> 85" by (rule bitlen_le)
  then have "s \<le> 32" by (simp add: s_def)
  then have s: "(2::nat) ^ s \<le> 2 ^ 32" by (rule power_increasing) simp
  define A where "A = p div 2 ^ s * 2 ^ s"
  define B where "B = (2::nat) ^ s"
  define M where "M = m * 2 ^ s"
  have q: "A + p mod 2 ^ s = p" unfolding A_def by (rule div_mult_mod_eq)
  have r: "p mod 2 ^ s < B" unfolding B_def by simp
  have lo: "p div 2 ^ s \<le> m" and hi: "m \<le> p div 2 ^ s + 1" by (simp_all add: m_def)
  have lo': "A \<le> M" unfolding A_def M_def using lo by (rule mult_le_mono1)
  have "M \<le> (p div 2 ^ s + 1) * 2 ^ s" unfolding M_def using hi by (rule mult_le_mono1)
  then have hi': "M \<le> A + B" by (simp add: A_def B_def algebra_simps)
  have hi'': "M \<le> p + B" using hi' q by linarith
  have lo'': "p < M + B" using lo' q r by linarith
  have s: "B \<le> 2 ^ 32" using s by (simp add: B_def)
  have c: "10 * p + 4 * n = 7 * n * 2 ^ 53" by (simp add: p_def)
  show "10 * (m * 2 ^ s) + 4 * n + 10 * 2 ^ 32 > 7 * n * 2 ^ 53"
    using lo'' s c unfolding M_def[symmetric] by linarith
  show "10 * (m * 2 ^ s) + 4 * n \<le> 7 * n * 2 ^ 53 + 10 * 2 ^ 32"
    using hi'' s c unfolding M_def[symmetric] by linarith
qed

text \<open>
  For an array length the result is never above the exact \<open>\<lfloor>0.7 n\<rfloor>\<close>, and it is exactly that
  unless \<open>n\<close> is a multiple of 10.
\<close>

lemma floor_times_0_7_le:
  assumes "n < 2 ^ 32"
  shows "floor_times_0_7 n \<le> 7 * n div 10"
proof -
  obtain v where fl: "floor_times_0_7 n = v div 2 ^ 53"
    and hi: "10 * v + 4 * n \<le> 7 * n * 2 ^ 53 + 10 * 2 ^ 32"
    using rounded_product_bounds[OF assms] by blast
  have "7 * n < 10 * (7 * n div 10 + 1)" by presburger
  then have "7 * n + 1 \<le> 10 * (7 * n div 10 + 1)" by simp
  then have "(7 * n + 1) * 2 ^ 53 \<le> 10 * (7 * n div 10 + 1) * 2 ^ 53" by (rule mult_le_mono1)
  moreover have "10 * v < (7 * n + 1) * 2 ^ 53" using hi by (simp add: algebra_simps)
  ultimately have "10 * v < 10 * ((7 * n div 10 + 1) * 2 ^ 53)" by (simp add: algebra_simps)
  then have "v < (7 * n div 10 + 1) * 2 ^ 53" by simp
  then have "v div 2 ^ 53 < 7 * n div 10 + 1" by (simp add: less_mult_imp_div_less)
  then show ?thesis using fl by simp
qed

lemma floor_times_0_7_exact:
  assumes "n < 2 ^ 32" and "\<not> 10 dvd n"
  shows "floor_times_0_7 n = 7 * n div 10"
proof -
  obtain v where fl: "floor_times_0_7 n = v div 2 ^ 53"
    and lo: "10 * v + 4 * n + 10 * 2 ^ 32 > 7 * n * 2 ^ 53"
    using rounded_product_bounds[OF assms(1)] by blast
  have "\<not> 10 dvd 7 * n" using assms(2) by presburger
  then have "10 * (7 * n div 10) + 1 \<le> 7 * n" by presburger
  then have "(10 * (7 * n div 10) + 1) * 2 ^ 53 \<le> 7 * n * 2 ^ 53" by (rule mult_le_mono1)
  moreover have "4 * n + 10 * 2 ^ 32 < (2::nat) ^ 53" using assms(1) by simp
  ultimately have "10 * ((7 * n div 10) * 2 ^ 53) < 10 * v" using lo by (simp add: algebra_simps)
  then have "(7 * n div 10) * 2 ^ 53 \<le> v" by simp
  then have "7 * n div 10 \<le> v div 2 ^ 53"
    by (simp add: less_eq_div_iff_mult_less_eq)
  then show ?thesis using fl floor_times_0_7_le[OF assms(1)] by simp
qed

lemma map_of_setProperty: "map_of (setProperty k v cs) = (map_of cs)(k \<mapsto> v)"
  by (induction cs) (auto simp: fun_eq_iff)

lemma keys_setProperty: "fst ` set (setProperty k v cs) = insert k (fst ` set cs)"
proof -
  have "dom (map_of (setProperty k v cs)) = insert k (dom (map_of cs))"
    by (simp add: map_of_setProperty)
  then show ?thesis by (simp only: dom_map_of_conv_image_fst)
qed

lemma distinct_setProperty: "distinct (map fst cs) \<Longrightarrow> distinct (map fst (setProperty k v cs))"
  by (induction cs) (auto simp: keys_setProperty)

lemma proto_in_names: "js ''__proto__'' \<in> set Object_prototype_names"
  by (simp add: Object_prototype_names_def)

lemma counts_invariant:
  "distinct (map fst (foldl countLine [] ls)) \<and>
   (\<forall>T. map_of (foldl countLine [] ls) T =
      (if T = [] \<or> T \<notin> set ls \<or> T = js ''__proto__'' then None
       else if T \<in> set Object_prototype_names then Some NotANumber
       else Some (Count (count_list ls T))))"
proof (induction ls rule: rev_induct)
  case Nil
  then show ?case by simp
next
  case (snoc x xs)
  let ?cs = "foldl countLine [] xs"
  have d: "distinct (map fst ?cs)" using snoc by simp
  have m: "\<And>T. map_of ?cs T =
      (if T = [] \<or> T \<notin> set xs \<or> T = js ''__proto__'' then None
       else if T \<in> set Object_prototype_names then Some NotANumber
       else Some (Count (count_list xs T)))" using snoc by simp
  have f: "foldl countLine [] (xs @ [x]) = countLine ?cs x" by simp
  have "distinct (map fst (countLine ?cs x))"
    using d by (auto simp: countLine_def distinct_setProperty split: option.splits count.splits)
  moreover have "\<And>T. map_of (countLine ?cs x) T =
      (if T = [] \<or> T \<notin> set (xs @ [x]) \<or> T = js ''__proto__'' then None
       else if T \<in> set Object_prototype_names then Some NotANumber
       else Some (Count (count_list (xs @ [x]) T)))"
  proof -
    fix T
    show "map_of (countLine ?cs x) T =
      (if T = [] \<or> T \<notin> set (xs @ [x]) \<or> T = js ''__proto__'' then None
       else if T \<in> set Object_prototype_names then Some NotANumber
       else Some (Count (count_list (xs @ [x]) T)))"
    proof (cases "x = T")
      case False
      then have "map_of (countLine ?cs x) T = map_of ?cs T"
        by (auto simp: countLine_def map_of_setProperty split: option.splits count.splits)
      with False show ?thesis by (simp add: m)
    next
      case True
      show ?thesis
        unfolding True[symmetric]
        using m[of x] proto_in_names
        by (auto simp: countLine_def map_of_setProperty count_list_0_iff split: option.splits count.splits if_splits)
    qed
  qed
  ultimately show ?case unfolding f by blast
qed

lemma set_Object_entries: "set (Object_entries cs) = set cs"
  by (auto simp: Object_entries_def)

lemma findRepeatedLines_iff:
  "T \<in> set (findRepeatedLines n ls) \<longleftrightarrow>
     T \<noteq> [] \<and> T \<in> set ls \<and> T \<notin> set Object_prototype_names \<and> floor_times_0_7 n \<le> count_list ls T"
proof -
  let ?cs = "foldl countLine [] ls"
  have d: "distinct (map fst ?cs)" using counts_invariant by blast
  have m: "map_of ?cs T =
      (if T = [] \<or> T \<notin> set ls \<or> T = js ''__proto__'' then None
       else if T \<in> set Object_prototype_names then Some NotANumber
       else Some (Count (count_list ls T)))" using counts_invariant by blast
  have "T \<in> set (findRepeatedLines n ls) \<longleftrightarrow> (\<exists>v. (T, v) \<in> set ?cs \<and> reaches v (floor_times_0_7 n))"
    by (force simp: findRepeatedLines_def set_Object_entries)
  also have "\<dots> \<longleftrightarrow> (\<exists>v. map_of ?cs T = Some v \<and> reaches v (floor_times_0_7 n))"
    using d by simp
  also have "\<dots> \<longleftrightarrow> T \<noteq> [] \<and> T \<in> set ls \<and> T \<notin> set Object_prototype_names \<and> floor_times_0_7 n \<le> count_list ls T"
    unfolding m using proto_in_names by auto
  finally show ?thesis .
qed

lemma findRepeatedLines_member:
  "x \<in> set (findRepeatedLines n ls) \<Longrightarrow> x \<noteq> [] \<and> x \<in> set ls"
  by (simp add: findRepeatedLines_iff)

lemma findRepeatedLines_single:
  assumes "l \<noteq> []" and "l \<notin> set Object_prototype_names"
  shows "findRepeatedLines 1 [l] = [l]"
proof -
  have "l \<noteq> js ''__proto__''" using assms(2) proto_in_names by auto
  then have c: "foldl countLine [] [l] = [(l, Count 1)]"
    using assms by (simp add: countLine_def)
  show ?thesis
    unfolding findRepeatedLines_def c floor_times_0_7_1 Let_def
    by (simp add: Object_entries_def)
qed

lemma lineText_Nil: "lineText [] = []"
  by (simp add: lineText_def trim_def)

lemma lineText_fragment: "lineText [fragment s v h] = trim (js s)"
  by (simp add: lineText_def fragment_def)

lemma lineBlocks_member:
  "b \<in> set (lineBlocks rh rf l) \<Longrightarrow>
     block_text b = lineText l \<and> lineText l \<noteq> [] \<and> lineText l \<notin> set rh \<and> lineText l \<notin> set rf
     \<and> (block_type b = ''heading_2'' \<or> block_type b = ''paragraph'')"
  by (auto simp: lineBlocks_def Let_def split: if_splits)

lemma lineBlocks_repeated:
  "lineText l \<in> set rh \<or> lineText l \<in> set rf \<Longrightarrow> lineBlocks rh rf l = []"
  by (simp add: lineBlocks_def Let_def)

lemma lineBlocks_blank: "lineText l = [] \<Longrightarrow> lineBlocks rh rf l = []"
  by (simp add: lineBlocks_def Let_def)

lemma lineBlocks_small:
  "trim (js s) \<noteq> [] \<Longrightarrow> trim (js s) \<notin> set rh \<Longrightarrow> trim (js s) \<notin> set rf \<Longrightarrow> h \<le> 10 \<Longrightarrow>
   lineBlocks rh rf [fragment s v h] = [\<lparr>block_type = ''paragraph'', block_text = trim (js s)\<rparr>]"
  by (simp add: lineBlocks_def lineText_fragment Let_def) (simp add: fragment_def)

lemma lineBlocks_large:
  "trim (js s) \<noteq> [] \<Longrightarrow> trim (js s) \<notin> set rh \<Longrightarrow> trim (js s) \<notin> set rf \<Longrightarrow> 10 < h \<Longrightarrow>
   lineBlocks rh rf [fragment s v h] = [\<lparr>block_type = ''heading_2'', block_text = trim (js s)\<rparr>]"
  by (simp add: lineBlocks_def lineText_fragment Let_def floor_times_0_7_Suc_0) (simp add: fragment_def)

lemma bodyBlocks_member:
  "b \<in> set (bodyBlocks rh rf pages) \<Longrightarrow>
     block_text b \<noteq> [] \<and> trim (block_text b) = block_text b
     \<and> block_text b \<notin> set rh \<and> block_text b \<notin> set rf
     \<and> (block_type b = ''heading_2'' \<or> block_type b = ''paragraph'')"
  unfolding bodyBlocks_def
  by (auto dest!: lineBlocks_member simp: lineText_def trim_trim)

lemma bodyBlocks_text_not_repeated:
  "T \<in> set rh \<or> T \<in> set rf \<Longrightarrow> T \<notin> block_text ` set (bodyBlocks rh rf pages)"
  using bodyBlocks_member by blast

lemma firstLines_trimmed: "x \<in> set (firstLines pages) \<Longrightarrow> trim x = x"
  by (auto simp: firstLines_def lineText_def trim_trim split: list.splits)

lemma lastLines_trimmed: "x \<in> set (lastLines pages) \<Longrightarrow> trim x = x"
  by (auto simp: lastLines_def lineText_def trim_trim split: list.splits)

lemma Math_max_Max: assumes "hs \<noteq> []" shows "Math_max hs = Some (Max (set hs))"
proof (cases hs)
  case Nil
  then show ?thesis using assms by simp
next
  case (Cons a as)
  have "fold max as a = Max (set (a # as))" by (rule Max.set_eq_fold[symmetric])
  then show ?thesis using Cons by simp
qed

lemma blocks_parsePDF:
  "blocks (parsePDF pages) =
     (case repeatedHeaders (parsePDF pages) of [] \<Rightarrow> [] | h # _ \<Rightarrow> [\<lparr>block_type = ''paragraph'', block_text = h\<rparr>])
     @ bodyBlocks (repeatedHeaders (parsePDF pages)) (repeatedFooters (parsePDF pages)) pages
     @ (case repeatedFooters (parsePDF pages) of [] \<Rightarrow> [] | f # _ \<Rightarrow> [\<lparr>block_type = ''paragraph'', block_text = f\<rparr>])"
  by (simp add: parsePDF_def Let_def split: list.splits)

lemma repeatedHeaders_parsePDF:
  "repeatedHeaders (parsePDF pages) = findRepeatedLines (length pages) (firstLines pages)"
  by (simp add: parsePDF_def Let_def)

lemma repeatedFooters_parsePDF:
  "repeatedFooters (parsePDF pages) = findRepeatedLines (length pages) (lastLines pages)"
  by (simp add: parsePDF_def Let_def)

lemma repeatedHeaders_member:
  "h \<in> set (repeatedHeaders (parsePDF pages)) \<Longrightarrow> h \<noteq> [] \<and> trim h = h"
  using findRepeatedLines_member[of h "length pages" "firstLines pages"] firstLines_trimmed[of h pages]
  by (simp add: repeatedHeaders_parsePDF)

lemma repeatedFooters_member:
  "f \<in> set (repeatedFooters (parsePDF pages)) \<Longrightarrow> f \<noteq> [] \<and> trim f = f"
  using findRepeatedLines_member[of f "length pages" "lastLines pages"] lastLines_trimmed[of f pages]
  by (simp add: repeatedFooters_parsePDF)

lemma parsePDF_block:
  assumes "b \<in> set (blocks (parsePDF pages))"
  shows "block_text b \<noteq> [] \<and> trim (block_text b) = block_text b
         \<and> (block_type b = ''heading_2'' \<or> block_type b = ''paragraph'')"
proof -
  let ?rh = "repeatedHeaders (parsePDF pages)" and ?rf = "repeatedFooters (parsePDF pages)"
  have "b \<in> set (bodyBlocks ?rh ?rf pages)
        \<or> (\<exists>h\<in>set ?rh. b = \<lparr>block_type = ''paragraph'', block_text = h\<rparr>)
        \<or> (\<exists>f\<in>set ?rf. b = \<lparr>block_type = ''paragraph'', block_text = f\<rparr>)"
    using assms unfolding blocks_parsePDF[of pages]
    by (cases ?rh; cases ?rf) auto
  then show ?thesis
    using bodyBlocks_member[of b ?rh ?rf pages] repeatedHeaders_member[of _ pages]
      repeatedFooters_member[of _ pages]
    by auto
qed

lemma count_list_absent: "x \<notin> set xs \<Longrightarrow> count_list xs x = 0"
  by (simp add: count_list_0_iff)

lemma groupLines_two_lines:
  "farApart (item_y b) (item_y a) \<Longrightarrow> groupLines [a, b] = [[a], [b]]"
  by (simp add: groupLines_def groupItem_def)

lemma groupLines_single: "groupLines [a] = [[a]]"
  by (simp add: groupLines_def groupItem_def)

text \<open>
  The exact difference of the doubles \<open>2.1\<close> and \<open>0.1\<close> is above 2 and rounds to 2: the
  two fragments stay on one line.
\<close>

lemma groupLines_rounded_gap:
  "2 < \<bar>item_y (rounded_gap_page ! 1) - item_y (rounded_gap_page ! 0)\<bar>
   \<and> groupLines rounded_gap_page = [rounded_gap_page]"
  by (simp add: rounded_gap_page_def groupLines_def groupItem_def farApart_def fragment_def)

text \<open>Each fragment is compared with the one before it, not with the start of its line.\<close>

lemma groupLines_drift:
  "groupLines [fragment ''a'' 0 9, fragment ''b'' 2 9, fragment ''c'' 4 9, fragment ''d'' 10 9]
     = [[fragment ''a'' 0 9, fragment ''b'' 2 9, fragment ''c'' 4 9], [fragment ''d'' 10 9]]"
  by (simp add: groupLines_def groupItem_def farApart_def fragment_def)

subsection \<open>The sample documents\<close>

lemma trim_literals:
  "trim (js ''Title'') = js ''Title''" "trim (js ''a'') = js ''a''" "trim (js ''b'') = js ''b''"
  "trim (js ''c'') = js ''c''" "trim (js ''A'') = js ''A''" "trim (js ''B'') = js ''B''"
  "trim (js ''x'') = js ''x''" "trim (js ''y'') = js ''y''"
  "trim (js ''constructor'') = js ''constructor''" "trim (js '' '') = []"
  by code_simp+

lemma literal_facts:
  "js ''a'' \<noteq> []" "js ''b'' \<noteq> []" "js ''c'' \<noteq> []" "js ''Title'' \<noteq> []"
  "js ''a'' \<noteq> js ''Title''" "js ''b'' \<noteq> js ''Title''" "js ''c'' \<noteq> js ''Title''"
  "js ''Title'' \<notin> set Object_prototype_names"
  by code_simp+

lemma more_literal_facts:
  "js ''A'' \<noteq> []" "js ''B'' \<noteq> []" "js ''x'' \<noteq> []" "js ''y'' \<noteq> []"
  "js ''constructor'' \<noteq> []" "js ''constructor'' \<in> set Object_prototype_names"
  by code_simp+

lemma allPageBlocks_running_header_doc:
  "allPageBlocks running_header_doc =
     [[[fragment ''Title'' 0 12], [fragment ''a'' 20 9]],
      [[fragment ''Title'' 0 12], [fragment ''b'' 20 9]],
      [[fragment ''Title'' 0 12], [fragment ''c'' 20 9]]]"
  by (simp add: allPageBlocks_def running_header_doc_def groupLines_two_lines farApart_def fragment_def)

lemma firstLines_running_header_doc:
  "firstLines running_header_doc = [js ''Title'', js ''Title'', js ''Title'']"
  unfolding firstLines_def allPageBlocks_running_header_doc
  by (simp add: lineText_fragment trim_literals)

lemma lastLines_running_header_doc:
  "lastLines running_header_doc = [js ''a'', js ''b'', js ''c'']"
  unfolding lastLines_def allPageBlocks_running_header_doc
  by (simp add: lineText_fragment trim_literals)

lemma repeatedHeaders_running_header_doc:
  "findRepeatedLines 3 [js ''Title'', js ''Title'', js ''Title''] = [js ''Title'']"
  unfolding findRepeatedLines_def floor_times_0_7_3 Let_def by code_simp

lemma repeatedFooters_running_header_doc:
  "findRepeatedLines 3 [js ''a'', js ''b'', js ''c''] = []"
  unfolding findRepeatedLines_def floor_times_0_7_3 Let_def by code_simp

lemma bodyBlocks_running_header_doc:
  "bodyBlocks [js ''Title''] [] running_header_doc =
     [\<lparr>block_type = ''paragraph'', block_text = js ''a''\<rparr>,
      \<lparr>block_type = ''paragraph'', block_text = js ''b''\<rparr>,
      \<lparr>block_type = ''paragraph'', block_text = js ''c''\<rparr>]"
  unfolding bodyBlocks_def allPageBlocks_running_header_doc
  by (simp add: lineBlocks_small lineBlocks_repeated lineText_fragment trim_literals literal_facts)

lemma parsePDF_running_header_doc:
  "parsePDF running_header_doc =
     \<lparr>blocks = [\<lparr>block_type = ''paragraph'', block_text = js ''Title''\<rparr>,
                \<lparr>block_type = ''paragraph'', block_text = js ''a''\<rparr>,
                \<lparr>block_type = ''paragraph'', block_text = js ''b''\<rparr>,
                \<lparr>block_type = ''paragraph'', block_text = js ''c''\<rparr>],
      pageCount = 3, repeatedHeaders = [js ''Title''], repeatedFooters = []\<rparr>"
proof -
  have n: "length running_header_doc = 3" by (simp add: running_header_doc_def)
  show ?thesis
    unfolding parsePDF_def n firstLines_running_header_doc lastLines_running_header_doc
      repeatedHeaders_running_header_doc repeatedFooters_running_header_doc Let_def
    by (simp add: bodyBlocks_running_header_doc)
qed

lemma allPageBlocks_two_headers_doc: "allPageBlocks two_headers_doc =
   [[[fragment ''A'' 0 12], [fragment ''x'' 20 9]], [[fragment ''B'' 0 12], [fragment ''y'' 20 9]]]"
  by (simp add: allPageBlocks_def two_headers_doc_def groupLines_two_lines farApart_def fragment_def)

lemma firstLines_two_headers_doc: "firstLines two_headers_doc = [js ''A'', js ''B'']"
  unfolding firstLines_def allPageBlocks_two_headers_doc by (simp add: lineText_fragment trim_literals)

lemma lastLines_two_headers_doc: "lastLines two_headers_doc = [js ''x'', js ''y'']"
  unfolding lastLines_def allPageBlocks_two_headers_doc by (simp add: lineText_fragment trim_literals)

lemma repeatedHeaders_two_headers_doc: "findRepeatedLines 2 [js ''A'', js ''B''] = [js ''A'', js ''B'']"
  unfolding findRepeatedLines_def floor_times_0_7_2 Let_def by code_simp

lemma repeatedFooters_two_headers_doc: "findRepeatedLines 2 [js ''x'', js ''y''] = [js ''x'', js ''y'']"
  unfolding findRepeatedLines_def floor_times_0_7_2 Let_def by code_simp

lemma bodyBlocks_two_headers_doc:
  "bodyBlocks [js ''A'', js ''B''] [js ''x'', js ''y''] two_headers_doc = []"
  unfolding bodyBlocks_def allPageBlocks_two_headers_doc
  by (simp add: lineBlocks_repeated lineText_fragment trim_literals)

lemma parsePDF_two_headers_doc:
  "parsePDF two_headers_doc =
     \<lparr>blocks = [\<lparr>block_type = ''paragraph'', block_text = js ''A''\<rparr>,
                \<lparr>block_type = ''paragraph'', block_text = js ''x''\<rparr>],
      pageCount = 2, repeatedHeaders = [js ''A'', js ''B''], repeatedFooters = [js ''x'', js ''y'']\<rparr>"
proof -
  have n: "length two_headers_doc = 2" by (simp add: two_headers_doc_def)
  show ?thesis
    unfolding parsePDF_def n firstLines_two_headers_doc lastLines_two_headers_doc repeatedHeaders_two_headers_doc repeatedFooters_two_headers_doc Let_def
    by (simp add: bodyBlocks_two_headers_doc)
qed

lemma allPageBlocks_header_as_footer_doc:
  "allPageBlocks header_as_footer_doc =
     [[[fragment ''A'' 0 12], [fragment ''T'' 20 9]], [[fragment ''T'' 0 12], [fragment ''x'' 20 9]]]"
  by (simp add: allPageBlocks_def header_as_footer_doc_def groupLines_two_lines farApart_def fragment_def)

lemma trim_T: "trim (js ''T'') = js ''T''"
  by code_simp

lemma firstLines_header_as_footer_doc: "firstLines header_as_footer_doc = [js ''A'', js ''T'']"
  unfolding firstLines_def allPageBlocks_header_as_footer_doc
  by (simp add: lineText_fragment trim_literals trim_T)

lemma lastLines_header_as_footer_doc: "lastLines header_as_footer_doc = [js ''T'', js ''x'']"
  unfolding lastLines_def allPageBlocks_header_as_footer_doc
  by (simp add: lineText_fragment trim_literals trim_T)

lemma repeatedHeaders_header_as_footer_doc:
  "findRepeatedLines 2 [js ''A'', js ''T''] = [js ''A'', js ''T'']"
  unfolding findRepeatedLines_def floor_times_0_7_2 Let_def by code_simp

lemma repeatedFooters_header_as_footer_doc:
  "findRepeatedLines 2 [js ''T'', js ''x''] = [js ''T'', js ''x'']"
  unfolding findRepeatedLines_def floor_times_0_7_2 Let_def by code_simp

lemma bodyBlocks_header_as_footer_doc:
  "bodyBlocks [js ''A'', js ''T''] [js ''T'', js ''x''] header_as_footer_doc = []"
  unfolding bodyBlocks_def allPageBlocks_header_as_footer_doc
  by (simp add: lineBlocks_repeated lineText_fragment trim_literals trim_T)

text \<open>
  A repeated header that is not the first one detected, but is the first repeated footer:
  it is in the output once, as the last block.
\<close>

lemma parsePDF_header_as_footer_doc:
  "parsePDF header_as_footer_doc =
     \<lparr>blocks = [\<lparr>block_type = ''paragraph'', block_text = js ''A''\<rparr>,
                \<lparr>block_type = ''paragraph'', block_text = js ''T''\<rparr>],
      pageCount = 2, repeatedHeaders = [js ''A'', js ''T''], repeatedFooters = [js ''T'', js ''x'']\<rparr>"
proof -
  have n: "length header_as_footer_doc = 2" by (simp add: header_as_footer_doc_def)
  show ?thesis
    unfolding parsePDF_def n firstLines_header_as_footer_doc lastLines_header_as_footer_doc
      repeatedHeaders_header_as_footer_doc repeatedFooters_header_as_footer_doc Let_def
    by (simp add: bodyBlocks_header_as_footer_doc)
qed

lemma findRepeatedLines_constructor: "findRepeatedLines 1 [js ''constructor''] = []"
  unfolding findRepeatedLines_def floor_times_0_7_1 Let_def by code_simp

subsection \<open>Heading detection\<close>

text \<open>
  C7, as stated: a line whose text is no repeated header or footer is a heading when at
  least \<open>Math.floor(n * 0.7)\<close> of its \<open>n\<close> fragments have the maximum height and that
  height exceeds 10, and a paragraph otherwise. A line whose text is blank passes the
  heading test and still gets no block: the loop returns before classifying it.
\<close>

theorem C7_blank_line_gets_no_block:
  "lineText [fragment '' '' 0 12] \<notin> set []
   \<and> floor_times_0_7 (length [fragment '' '' 0 12])
        \<le> length (filter (\<lambda>i. item_height i = Max (item_height ` set [fragment '' '' 0 12]))
             [fragment '' '' 0 12])
   \<and> 10 < Max (item_height ` set [fragment '' '' 0 12])
   \<and> lineBlocks [] [] [fragment '' '' 0 12] = []"
  by (simp add: floor_times_0_7_Suc_0 lineBlocks_blank lineText_fragment trim_literals)
     (simp add: fragment_def)

text \<open>
  C7, amended: a line with non-blank text that is no repeated header or footer gets
  exactly one block, a heading if and only if at least \<open>Math.floor(n * 0.7)\<close> of its
  fragments have the line's maximum height and that height exceeds 10, and a paragraph
  otherwise.
\<close>

theorem C7_line_classification:
  assumes "lineText l \<noteq> []" and "lineText l \<notin> set rh" and "lineText l \<notin> set rf"
  shows "lineBlocks rh rf l =
     [\<lparr>block_type =
          (if floor_times_0_7 (length l)
                \<le> length (filter (\<lambda>i. item_height i = Max (item_height ` set l)) l)
              \<and> 10 < Max (item_height ` set l)
           then ''heading_2'' else ''paragraph''),
        block_text = lineText l\<rparr>]"
proof -
  have "l \<noteq> []" using assms(1) lineText_Nil by auto
  then have "Math_max (map item_height l) = Some (Max (item_height ` set l))"
    using Math_max_Max[of "map item_height l"] by simp
  then show ?thesis
    using assms by (simp add: lineBlocks_def Let_def o_def)
qed

text \<open>
  C7 at a line of one fragment of height 12.
\<close>

theorem C7_line_classification_witness:
  "lineBlocks [] [] [fragment ''Title'' 0 12]
     = [\<lparr>block_type = ''heading_2'', block_text = js ''Title''\<rparr>]"
proof -
  have t: "lineText [fragment ''Title'' 0 12] = js ''Title''"
    by (simp add: lineText_fragment trim_literals)
  have 1: "lineText [fragment ''Title'' 0 12] \<noteq> []" unfolding t by (rule literal_facts)
  have 2: "lineText [fragment ''Title'' 0 12] \<notin> set []" by simp
  have h: "item_height (fragment ''Title'' 0 12) = 12" by (simp add: fragment_def)
  show ?thesis
    using C7_line_classification[OF 1 2 2]
    by (simp add: t h floor_times_0_7_Suc_0)
qed

subsection \<open>Repeated headers\<close>

text \<open>
  C3, as stated: a text that is the first line of at least \<open>Math.floor(pages * 0.7)\<close>
  pages is left out of the body and appears exactly once in the output, as its first
  block. With two pages the threshold is 1; \<open>B\<close> is the first line of the second page,
  is left out of the body, and appears nowhere in the output, since only the first
  repeated header is put back.
\<close>

theorem C3_second_header_never_emitted:
  "js ''B'' \<noteq> []
   \<and> js ''B'' \<in> set (firstLines two_headers_doc)
   \<and> floor_times_0_7 (length two_headers_doc) \<le> count_list (firstLines two_headers_doc) (js ''B'')
   \<and> map block_text (blocks (parsePDF two_headers_doc)) = [js ''A'', js ''x'']
   \<and> js ''B'' \<notin> set [js ''A'', js ''x'']"
proof -
  have n: "length two_headers_doc = 2" by (simp add: two_headers_doc_def)
  have "js ''B'' \<noteq> js ''A''" "js ''B'' \<noteq> js ''x''" by code_simp+
  then show ?thesis
    by (simp add: n firstLines_two_headers_doc floor_times_0_7_2 parsePDF_two_headers_doc
        more_literal_facts)
qed

text \<open>
  C3, amended: a non-empty text \<open>T\<close>, not the name of a property that \<open>counts\<close>
  inherits, that is the first line of at least one page and of at least
  \<open>Math.floor(pages * 0.7)\<close> pages is a repeated header and is left out of the body. The
  output begins with one paragraph holding the first repeated header in the order of
  \<open>Object.entries\<close>, then the body, then a paragraph for the first repeated footer if
  there is one. So \<open>T\<close> occurs in the output only as that first block, when it is the
  first repeated header, and as that last block, when it is the first repeated footer: once
  for each of the two that holds, and not at all when neither does.
\<close>

theorem C3_repeated_header:
  assumes "T \<noteq> []" and "T \<notin> set Object_prototype_names"
    and "T \<in> set (firstLines pages)"
    and "floor_times_0_7 (length pages) \<le> count_list (firstLines pages) T"
    and "r = parsePDF pages"
  shows "T \<in> set (repeatedHeaders r)
     \<and> T \<notin> block_text ` set (bodyBlocks (repeatedHeaders r) (repeatedFooters r) pages)
     \<and> blocks r =
         \<lparr>block_type = ''paragraph'', block_text = hd (repeatedHeaders r)\<rparr>
         # bodyBlocks (repeatedHeaders r) (repeatedFooters r) pages
         @ (case repeatedFooters r of
              [] \<Rightarrow> []
            | f # _ \<Rightarrow> [\<lparr>block_type = ''paragraph'', block_text = f\<rparr>])
     \<and> count_list (map block_text (blocks r)) T =
         (if hd (repeatedHeaders r) = T then 1 else 0)
         + (case repeatedFooters r of [] \<Rightarrow> 0 | f # _ \<Rightarrow> if f = T then 1 else 0)"
proof -
  let ?rh = "repeatedHeaders r" and ?rf = "repeatedFooters r"
  let ?body = "bodyBlocks ?rh ?rf pages"
  have member: "T \<in> set ?rh"
    using assms by (simp add: repeatedHeaders_parsePDF findRepeatedLines_iff)
  then have absent: "T \<notin> block_text ` set ?body"
    by (simp add: bodyBlocks_text_not_repeated)
  from member obtain h hs where rh: "?rh = h # hs" by (cases ?rh) auto
  have shape: "blocks r = \<lparr>block_type = ''paragraph'', block_text = hd ?rh\<rparr> # ?body
         @ (case ?rf of [] \<Rightarrow> [] | f # _ \<Rightarrow> [\<lparr>block_type = ''paragraph'', block_text = f\<rparr>])"
    unfolding assms(5) blocks_parsePDF[of pages] using rh[unfolded assms(5)] by simp
  have zero: "count_list (map block_text ?body) T = 0"
    using absent by (simp add: count_list_absent)
  have "count_list (map block_text (blocks r)) T =
         (if hd ?rh = T then 1 else 0)
         + (case ?rf of [] \<Rightarrow> 0 | f # _ \<Rightarrow> if f = T then 1 else 0)"
    unfolding shape using zero by (simp split: list.splits)
  with member absent shape show ?thesis by blast
qed

text \<open>
  C3 at three pages that all begin with \<open>Title\<close>.
\<close>

theorem C3_repeated_header_witness:
  "js ''Title'' \<in> set (repeatedHeaders (parsePDF running_header_doc))
   \<and> hd (blocks (parsePDF running_header_doc)) = \<lparr>block_type = ''paragraph'', block_text = js ''Title''\<rparr>
   \<and> count_list (map block_text (blocks (parsePDF running_header_doc))) (js ''Title'') = 1"
proof -
  have n: "length running_header_doc = 3" by (simp add: running_header_doc_def)
  have 1: "js ''Title'' \<noteq> []" by (rule literal_facts)
  have 2: "js ''Title'' \<notin> set Object_prototype_names" by (rule literal_facts)
  have 3: "js ''Title'' \<in> set (firstLines running_header_doc)"
    by (simp add: firstLines_running_header_doc)
  have 4: "floor_times_0_7 (length running_header_doc)
             \<le> count_list (firstLines running_header_doc) (js ''Title'')"
    by (simp add: n firstLines_running_header_doc floor_times_0_7_3)
  show ?thesis
    using C3_repeated_header[OF 1 2 3 4 refl]
    by (simp add: parsePDF_running_header_doc)
qed

subsection \<open>A single page\<close>

text \<open>
  With one page the threshold is 0. When the texts of the first and last line are
  non-empty and are not names that \<open>counts\<close> inherits, each is detected, removed from the
  body and put back as a paragraph at the front and at the end.
\<close>

lemma parsePDF_single_page:
  assumes "groupLines page = l # ls"
    and "lineText l \<noteq> []" and "lineText l \<notin> set Object_prototype_names"
    and "lineText (last (l # ls)) \<noteq> []" and "lineText (last (l # ls)) \<notin> set Object_prototype_names"
  shows "parsePDF [page] =
     \<lparr>blocks = \<lparr>block_type = ''paragraph'', block_text = lineText l\<rparr>
                # bodyBlocks [lineText l] [lineText (last (l # ls))] [page]
                @ [\<lparr>block_type = ''paragraph'', block_text = lineText (last (l # ls))\<rparr>],
      pageCount = 1,
      repeatedHeaders = [lineText l],
      repeatedFooters = [lineText (last (l # ls))]\<rparr>"
proof -
  have f: "firstLines [page] = [lineText l]"
    using assms(1) by (simp add: firstLines_def allPageBlocks_def)
  have g: "lastLines [page] = [lineText (last (l # ls))]"
    using assms(1) by (simp add: lastLines_def allPageBlocks_def)
  have h: "findRepeatedLines (length [page]) [lineText l] = [lineText l]"
    using findRepeatedLines_single[OF assms(2,3)] by simp
  have k: "findRepeatedLines (length [page]) [lineText (last (l # ls))] = [lineText (last (l # ls))]"
    using findRepeatedLines_single[OF assms(4,5)] by simp
  show ?thesis
    unfolding parsePDF_def f g h k Let_def by simp
qed

text \<open>
  C10. On a single page the non-empty text of the first line always qualifies as a
  repeated header and that of the last line as a repeated footer. For a page whose only
  line reads \<open>constructor\<close> the count stored in \<open>counts\<close> is not a number, nothing is
  detected, and the line stays in the body as a heading.
\<close>

theorem C10_inherited_name_is_not_repeated:
  "parsePDF [constructor_page] =
     \<lparr>blocks = [\<lparr>block_type = ''heading_2'', block_text = js ''constructor''\<rparr>],
      pageCount = 1, repeatedHeaders = [], repeatedFooters = []\<rparr>"
proof -
  have a: "allPageBlocks [constructor_page] = [[[fragment ''constructor'' 0 12]]]"
    by (simp add: allPageBlocks_def constructor_page_def groupLines_single)
  have f: "firstLines [constructor_page] = [js ''constructor'']"
    unfolding firstLines_def a by (simp add: lineText_fragment trim_literals)
  have l: "lastLines [constructor_page] = [js ''constructor'']"
    unfolding lastLines_def a by (simp add: lineText_fragment trim_literals)
  have b: "bodyBlocks [] [] [constructor_page]
             = [\<lparr>block_type = ''heading_2'', block_text = js ''constructor''\<rparr>]"
    unfolding bodyBlocks_def a
    by (simp add: lineBlocks_large trim_literals more_literal_facts)
  have n: "length [constructor_page] = 1" by simp
  show ?thesis
    unfolding parsePDF_def n f l findRepeatedLines_constructor Let_def
    by (simp add: b)
qed

section \<open>The text of every block\<close>

text \<open>
  C4, as stated: every block has non-empty text without surrounding white space, and the
  text of a list item does not begin with a marker. A paragraph that begins with two
  hyphens becomes a list item whose text begins with the second one.
\<close>

theorem C4_bullet_text_keeps_second_marker:
  "textToNotionBlocks (js ''-- Signature.'')
     = [\<lparr>block_type = ''bulleted_list_item'', block_text = js ''- Signature.''\<rparr>]
   \<and> hd (js ''- Signature.'') = HYPHEN"
  by code_simp

text \<open>
  C4, amended: the text of every block of either strategy has no leading or trailing
  white space. The text of every block that is not a list item is non-empty, and
  Strategy B produces no list items. The text of a list item is the trimmed paragraph
  without its first marker and the white space after it.
\<close>

theorem C4_block_text_invariant:
  "(\<forall>b\<in>set (textToNotionBlocks text).
      trim (block_text b) = block_text b
      \<and> (block_type b \<noteq> ''bulleted_list_item'' \<longrightarrow> block_text b \<noteq> []))
   \<and> (\<forall>p\<in>set (paragraphs text).
      block_type (paragraphToBlock p) = ''bulleted_list_item'' \<longrightarrow>
        (\<exists>m rest. (m = BULLET \<or> m = HYPHEN) \<and> trim p = m # rest
           \<and> block_text (paragraphToBlock p) = dropWhile isWhiteSpace rest))
   \<and> (\<forall>b\<in>set (blocks (parsePDF pages)).
      block_text b \<noteq> [] \<and> trim (block_text b) = block_text b
      \<and> block_type b \<noteq> ''bulleted_list_item'')"
proof (intro conjI ballI impI)
  fix b assume "b \<in> set (textToNotionBlocks text)"
  then obtain p where p: "p \<in> set (paragraphs text)" "b = paragraphToBlock p"
    by (auto simp: textToNotionBlocks_def)
  show "trim (block_text b) = block_text b" using p by (simp add: paragraphToBlock_trimmed)
  assume "block_type b \<noteq> ''bulleted_list_item''"
  then show "block_text b \<noteq> []"
    using p paragraphs_member[of p "text"] by (simp add: paragraphToBlock_nonempty)
next
  fix p assume "block_type (paragraphToBlock p) = ''bulleted_list_item''"
  then show "\<exists>m rest. (m = BULLET \<or> m = HYPHEN) \<and> trim p = m # rest
           \<and> block_text (paragraphToBlock p) = dropWhile isWhiteSpace rest"
    by (rule paragraphToBlock_bullet)
next
  fix b assume b: "b \<in> set (blocks (parsePDF pages))"
  show "block_text b \<noteq> []" using parsePDF_block[OF b] by simp
  show "trim (block_text b) = block_text b" using parsePDF_block[OF b] by simp
  show "block_type b \<noteq> ''bulleted_list_item''" using parsePDF_block[OF b] by auto
qed

text \<open>
  C4 at a list item of Strategy A and at the header block of the three-page document.
\<close>

theorem C4_block_text_invariant_witness:
  "trim (js ''First point.'') = js ''First point.''
   \<and> js ''Title'' \<noteq> [] \<and> trim (js ''Title'') = js ''Title''"
proof -
  have a: "\<lparr>block_type = ''bulleted_list_item'', block_text = js ''First point.''\<rparr>
             \<in> set (textToNotionBlocks (js ''- First point.''))"
    by code_simp
  have b: "\<lparr>block_type = ''paragraph'', block_text = js ''Title''\<rparr>
             \<in> set (blocks (parsePDF running_header_doc))"
    by (simp add: parsePDF_running_header_doc)
  note inv = C4_block_text_invariant[of "js ''- First point.''" running_header_doc]
  from inv a have "trim (js ''First point.'') = js ''First point.''" by fastforce
  moreover from inv b have "js ''Title'' \<noteq> [] \<and> trim (js ''Title'') = js ''Title''" by fastforce
  ultimately show ?thesis by simp
qed

section \<open>Publishing\<close>

text \<open>
  C6, as stated: the mapping of \<open>/api/notion/create\<close> turns a list item into a
  \<open>bulleted_list_item\<close> object. The handler that accompanies the geometric \<open>parsePDF\<close>
  turns it into a paragraph.
\<close>

theorem C6_list_item_becomes_paragraph:
  "toNotionBlock_headings_only \<lparr>block_type = ''bulleted_list_item'', block_text = js ''item one''\<rparr>
     = \<lparr>notion_object = ''block'', notion_type = ''paragraph'', container = ''paragraph'',
        container_rich_text = [\<lparr>rich_type = ''text'', rich_content = js ''item one''\<rparr>]\<rparr>"
  by (simp add: toNotionBlock_headings_only_def)

text \<open>
  C6, amended: in the handlers with three branches a heading becomes a \<open>heading_2\<close>
  object, a list item a \<open>bulleted_list_item\<close> object and a block of any other type a
  \<open>paragraph\<close> object, each with one rich-text run holding the text of the block. The
  handler with two branches agrees on headings and on other types and makes a list item a
  paragraph. The mapping is total, and the children sent are the images of the first 100
  blocks in order.
\<close>

theorem C6_block_mapping:
  "(block_type b = ''heading_2'' \<longrightarrow>
      toNotionBlock b = \<lparr>notion_object = ''block'', notion_type = ''heading_2'',
        container = ''heading_2'',
        container_rich_text = [\<lparr>rich_type = ''text'', rich_content = block_text b\<rparr>]\<rparr>
      \<and> toNotionBlock_headings_only b = toNotionBlock b)
   \<and> (block_type b = ''bulleted_list_item'' \<longrightarrow>
      toNotionBlock b = \<lparr>notion_object = ''block'', notion_type = ''bulleted_list_item'',
        container = ''bulleted_list_item'',
        container_rich_text = [\<lparr>rich_type = ''text'', rich_content = block_text b\<rparr>]\<rparr>
      \<and> toNotionBlock_headings_only b = \<lparr>notion_object = ''block'', notion_type = ''paragraph'',
        container = ''paragraph'',
        container_rich_text = [\<lparr>rich_type = ''text'', rich_content = block_text b\<rparr>]\<rparr>)
   \<and> (block_type b \<noteq> ''heading_2'' \<and> block_type b \<noteq> ''bulleted_list_item'' \<longrightarrow>
      toNotionBlock b = \<lparr>notion_object = ''block'', notion_type = ''paragraph'',
        container = ''paragraph'',
        container_rich_text = [\<lparr>rich_type = ''text'', rich_content = block_text b\<rparr>]\<rparr>
      \<and> toNotionBlock_headings_only b = toNotionBlock b)
   \<and> length (children toNotionBlock bs) = min 100 (length bs)
   \<and> (\<forall>i < length (children toNotionBlock bs). children toNotionBlock bs ! i = toNotionBlock (bs ! i))"
  by (simp add: toNotionBlock_def toNotionBlock_headings_only_def children_def)

text \<open>
  C6 at a heading, a list item and a block of a type the handler does not know.
\<close>

theorem C6_block_mapping_witness:
  "notion_type (toNotionBlock \<lparr>block_type = ''heading_2'', block_text = js ''Summary''\<rparr>) = ''heading_2''
   \<and> notion_type (toNotionBlock \<lparr>block_type = ''bulleted_list_item'', block_text = js ''item one''\<rparr>)
       = ''bulleted_list_item''
   \<and> notion_type (toNotionBlock \<lparr>block_type = ''numbered_list_item'', block_text = js ''item one''\<rparr>)
       = ''paragraph''"
  using C6_block_mapping[of "\<lparr>block_type = ''heading_2'', block_text = js ''Summary''\<rparr>" "[]"]
    C6_block_mapping[of "\<lparr>block_type = ''bulleted_list_item'', block_text = js ''item one''\<rparr>" "[]"]
    C6_block_mapping[of "\<lparr>block_type = ''numbered_list_item'', block_text = js ''item one''\<rparr>" "[]"]
  by simp

section \<open>Salvage\<close>

lemma stripFences_fenced_response: \<open>stripFences fenced_response = js ''[{"text":"Hello"}]''\<close>
  unfolding fenced_response_def by code_simp

lemma mapContents_hello: "mapContents [JObject [(js ''text'', JString (js ''Hello''))]] = Inr [JString (js ''Hello'')]"
  by code_simp

lemma truthy_hello: "truthy (JString (js ''Hello''))"
  by code_simp

text \<open>
  An extracted value that is an object with a \<open>toString\<close> property of its own makes the
  join throw, and the response is returned as it is.
\<close>

lemma plainText_join_throws:
  assumes "JSON_parse rt (stripFences raw)
             = Some (JArray [JObject [(js ''text'', JObject [(js ''toString'', JNumber 1)])]])"
  shows "plainText rt raw = raw"
proof -
  have m: "mapContents [JObject [(js ''text'', JObject [(js ''toString'', JNumber 1)])]]
             = Inr [JObject [(js ''toString'', JNumber 1)]]"
    by code_simp
  show ?thesis
    unfolding plainText_def assms
    by (simp only: option.case jsval.case m sum.case) simp
qed

text \<open>
  C8. Given that \<open>JSON.parse\<close> reads the text \<open>[{"text":"Hello"}]\<close> as the array of one
  object with the property \<open>text\<close>, the fenced response gives \<open>Hello\<close>; and whenever
  \<open>JSON.parse\<close> throws on the response without its fence lines, the response is
  returned as it is.
\<close>

theorem C8_salvage:
  assumes \<open>JSON_parse rt (js ''[{"text":"Hello"}]'') = Some hello_array\<close>
  shows "plainText rt fenced_response = js ''Hello''
     \<and> (\<forall>raw. JSON_parse rt (stripFences raw) = None \<longrightarrow> plainText rt raw = raw)"
proof -
  have "plainText rt fenced_response
          = (case collect (map (joinElement (Number_toString rt)) (filter truthy [JString (js ''Hello'')])) of
               Inl e \<Rightarrow> fenced_response
             | Inr strs \<Rightarrow> join [NL, NL] strs)"
    unfolding plainText_def stripFences_fenced_response assms hello_array_def
    by (simp only: option.case jsval.case mapContents_hello sum.case)
  also have "\<dots> = js ''Hello''"
    using truthy_hello by simp
  finally have "plainText rt fenced_response = js ''Hello''" .
  moreover have "\<forall>raw. JSON_parse rt (stripFences raw) = None \<longrightarrow> plainText rt raw = raw"
    by (simp add: plainText_def)
  ultimately show ?thesis by simp
qed

text \<open>
  C8 with a parser that reads the one array and rejects everything else, at the fenced
  response and at \<open>Hello world\<close>.
\<close>

theorem C8_salvage_witness:
  "plainText sample_runtime fenced_response = js ''Hello''
   \<and> plainText sample_runtime (js ''Hello world'') = js ''Hello world''"
proof -
  have p: \<open>JSON_parse sample_runtime (js ''[{"text":"Hello"}]'') = Some hello_array\<close>
    by (simp add: sample_runtime_def)
  have s: "stripFences (js ''Hello world'') = js ''Hello world''" by code_simp
  have \<open>js ''Hello world'' \<noteq> js ''[{"text":"Hello"}]''\<close> by code_simp
  then have n: "JSON_parse sample_runtime (stripFences (js ''Hello world'')) = None"
    by (simp add: s sample_runtime_def)
  show ?thesis using C8_salvage[OF p] n by blast
qed

end
